theory Spec2Isabelle
  imports Main
begin

section \<open>Strings\<close>

text \<open>
  A JavaScript string is a sequence of UTF-16 code units. The model takes the code units
  U+0000 to U+00FF, one \<^typ>\<open>char\<close> each, so that \<^typ>\<open>string\<close> is the type of the
  strings whose code units all lie in that range. On this range the three string methods
  used by \<^verbatim>\<open>ChatInterface.tsx\<close> are the functions below.
\<close>

text \<open>
  \<^verbatim>\<open>String.prototype.toLowerCase\<close>: the capital letters A to Z (65 to 90) and the capital
  letters U+00C0 to U+00DE other than the multiplication sign U+00D7 move up by 32; every
  other code unit below 256 is its own lower case.
\<close>

definition toLowerCase_char :: "char \<Rightarrow> char" where
  "toLowerCase_char c =
     (let n = (of_char c :: nat)
      in if (65 \<le> n \<and> n \<le> 90) \<or> (192 \<le> n \<and> n \<le> 222 \<and> n \<noteq> 215)
         then char_of (n + 32) else c)"

definition toLowerCase :: "string \<Rightarrow> string" where
  "toLowerCase s = map toLowerCase_char s"

text \<open>
  \<^verbatim>\<open>String.prototype.includes\<close> with one argument: does the argument occur in the
  receiver, starting at some index. \<open>startsWith s t\<close> tests the occurrence at index 0.
\<close>

fun startsWith :: "string \<Rightarrow> string \<Rightarrow> bool" where
  "startsWith s [] = True"
| "startsWith [] (c # cs) = False"
| "startsWith (x # xs) (c # cs) = (x = c \<and> startsWith xs cs)"

fun includes_str :: "string \<Rightarrow> string \<Rightarrow> bool" where
  "includes_str [] t = (t = [])"
| "includes_str (x # xs) t = (startsWith (x # xs) t \<or> includes_str xs t)"

text \<open>
  \<^verbatim>\<open>String.prototype.trim\<close> removes the white space and line terminators at both ends.
  Below 256 these are TAB, LF, VT, FF, CR, SPACE and the no-break space U+00A0.
\<close>

definition isWhiteSpace :: "char \<Rightarrow> bool" where
  "isWhiteSpace c = ((of_char c :: nat) \<in> {9, 10, 11, 12, 13, 32, 160})"

definition trim :: "string \<Rightarrow> string" where
  "trim s = rev (dropWhile isWhiteSpace (rev (dropWhile isWhiteSpace s)))"

section \<open>The response selector\<close>

text \<open>
  The five string literals of \<^verbatim>\<open>generateMedicalResponse\<close>. The fever advice holds the two
  code units U+00C2 U+00B0 before each temperature unit, as the source file has them.
\<close>

definition headache_advice :: string where
  "headache_advice = ''For headaches, try resting in a quiet, dark room. Stay hydrated and consider over-the-counter pain relievers like acetaminophen or ibuprofen. If headaches persist or worsen, consult a healthcare provider.''"

definition fever_advice :: string where
  "fever_advice = ''For fever, stay hydrated, rest, and monitor your temperature. Over-the-counter fever reducers like acetaminophen or ibuprofen can help. Seek medical attention if fever exceeds 103''
     @ [CHR 0xC2, CHR 0xB0] @ ''F (39.4'' @ [CHR 0xC2, CHR 0xB0] @ ''C) or lasts more than 3 days.''"

definition cold_flu_advice :: string where
  "cold_flu_advice = ''For cold or flu symptoms, get plenty of rest, stay hydrated, and use over-the-counter medications for symptom relief. Wash hands frequently and avoid close contact with others. Consult a doctor if symptoms worsen or persist beyond 10 days.''"

definition cough_advice :: string where
  "cough_advice = ''For a cough, stay hydrated, use honey (for ages 1+), and consider cough suppressants. Avoid irritants like smoke. If cough persists beyond 3 weeks, produces blood, or is accompanied by fever, see a healthcare provider.''"

definition generic_disclaimer :: string where
  "generic_disclaimer = ''I understand you have a health concern. While I can provide general information, I recommend consulting with a qualified healthcare professional for personalized medical advice and proper diagnosis. Always seek immediate medical attention for emergencies.''"

definition generateMedicalResponse :: "string \<Rightarrow> string" where
  "generateMedicalResponse query =
     (let lowerQuery = toLowerCase query
      in if includes_str lowerQuery ''headache'' then headache_advice
         else if includes_str lowerQuery ''fever'' then fever_advice
         else if includes_str lowerQuery ''cold'' \<or> includes_str lowerQuery ''flu''
           then cold_flu_advice
         else if includes_str lowerQuery ''cough'' then cough_advice
         else generic_disclaimer)"

text \<open>
  The selector as the specification words it: a table of rules, each a group of keywords
  with its reply, tried in order on the lower-cased input; the first rule one of whose
  keywords occurs in the input gives the reply, and the disclaimer is the reply when no
  rule applies. \<open>occurs_in t s\<close> is substring containment, at any position.
\<close>

definition occurs_in :: "string \<Rightarrow> string \<Rightarrow> bool" where
  "occurs_in t s = (\<exists>p q. s = p @ t @ q)"

definition keyword_rules :: "(string list \<times> string) list" where
  "keyword_rules =
     [([''headache''], headache_advice),
      ([''fever''], fever_advice),
      ([''cold'', ''flu''], cold_flu_advice),
      ([''cough''], cough_advice)]"

fun first_rule :: "(string list \<times> string) list \<Rightarrow> string \<Rightarrow> string option" where
  "first_rule [] s = None"
| "first_rule ((kws, reply) # rules) s =
     (if \<exists>k \<in> set kws. occurs_in k s then Some reply else first_rule rules s)"

definition selector_spec :: "string \<Rightarrow> string" where
  "selector_spec query =
     (case first_rule keyword_rules (toLowerCase query) of
        Some reply \<Rightarrow> reply
      | None \<Rightarrow> generic_disclaimer)"

section \<open>Rows, responses and the remote store\<close>

text \<open>
  The rows of \<^verbatim>\<open>types\<close>: \<^verbatim>\<open>ChatSession\<close> and \<^verbatim>\<open>Message\<close>. Row identifiers and user
  identifiers are opaque; only equality on them is used, and they are naturals here.
  Timestamps are ISO strings of one format, compared in time order; they are readings of
  a logical clock.
\<close>

type_synonym uuid = nat

type_synonym timestamp = nat

datatype role = User | Assistant

record ChatSession =
  cs_id :: uuid
  cs_user_id :: uuid
  cs_title :: string
  cs_created_at :: timestamp
  cs_updated_at :: timestamp

record Message =
  msg_id :: uuid
  msg_session_id :: uuid
  msg_role :: role
  msg_content :: string
  msg_created_at :: timestamp

text \<open>
  A call of the store client does not throw: it resolves to a pair of a nullable
  \<^verbatim>\<open>data\<close> and a nullable \<^verbatim>\<open>error\<close>.
\<close>

datatype store_error = TransportFailure | AuthorizationDenied

record 'a response =
  data :: "'a option"
  error :: "store_error option"

datatype request =
  SelectSessions
| SelectMessages uuid
| InsertSession uuid string
| InsertMessage uuid role string
| UpdateSession uuid timestamp

text \<open>
  Modelled from the spec: the hosted store, which is outside the sources. It holds the two
  tables \<^verbatim>\<open>chat_sessions\<close> and \<^verbatim>\<open>messages\<close> (section 6), the authenticated identity that
  its authorization policy compares rows with, the clock and the identifier supply that
  fill the columns a client leaves out, and two things that make its behaviour
  observable: the requests received so far, and a script saying which of the coming
  requests fail in transport (the head is the next request; a script that has run out
  means no failure).
\<close>

record store =
  chat_sessions_tbl :: "ChatSession list"
  messages_tbl :: "Message list"
  auth_uid :: uuid
  clock :: timestamp
  next_id :: uuid
  faults :: "bool list"
  requests :: "request list"

text \<open>
  Modelled from the spec: a request may fail with a \<open>StoreError\<close> in transport (4.1, 7).
  \<open>next_fault\<close> reads the script for the coming request and \<open>nth_fault fs n\<close> for the
  \<open>n\<close>-th request from now. Every request is recorded, uses up one entry of the script
  and one tick of the clock.
\<close>

definition next_fault :: "bool list \<Rightarrow> bool" where
  "next_fault fs = (case fs of [] \<Rightarrow> False | f # _ \<Rightarrow> f)"

fun nth_fault :: "bool list \<Rightarrow> nat \<Rightarrow> bool" where
  "nth_fault fs 0 = next_fault fs"
| "nth_fault fs (Suc n) = nth_fault (tl fs) n"

definition receive :: "request \<Rightarrow> store \<Rightarrow> bool \<times> store" where
  "receive req st =
     (next_fault (faults st),
      st\<lparr>requests := requests st @ [req], faults := tl (faults st),
         clock := Suc (clock st)\<rparr>)"

text \<open>
  Modelled from the spec: the authorization policy of section 6. A user reads and writes
  the sessions whose \<^verbatim>\<open>user_id\<close> is their identity, and the messages whose parent session
  they own.
\<close>

definition owns :: "store \<Rightarrow> uuid \<Rightarrow> bool" where
  "owns st sid =
     (\<exists>s \<in> set (chat_sessions_tbl st). cs_id s = sid \<and> cs_user_id s = auth_uid st)"

text \<open>
  Modelled from the spec: the store's answer to \<open>listSessions\<close> (4.1), the request
  \<^verbatim>\<open>from('chat_sessions').select('*').order('updated_at', { ascending: false })\<close>
  of \<^verbatim>\<open>loadSessions\<close>: the rows the user may read, newest \<^verbatim>\<open>updated_at\<close> first.
\<close>

definition select_sessions :: "store \<Rightarrow> ChatSession list response \<times> store" where
  "select_sessions st =
     (let (fault, st') = receive SelectSessions st
      in if fault then (\<lparr>data = None, error = Some TransportFailure\<rparr>, st')
         else
           (\<lparr>data = Some (rev (sort_key cs_updated_at
                (filter (\<lambda>s. cs_user_id s = auth_uid st) (chat_sessions_tbl st)))),
             error = None\<rparr>, st'))"

text \<open>
  Modelled from the spec: the store's answer to \<open>listMessages\<close> (4.2), the request
  \<^verbatim>\<open>from('messages').select('*').eq('session_id', sessionId).order('created_at', { ascending: true })\<close>
  of \<^verbatim>\<open>loadMessages\<close>: the readable rows of that session, oldest first.
\<close>

definition select_messages :: "uuid \<Rightarrow> store \<Rightarrow> Message list response \<times> store" where
  "select_messages sessionId st =
     (let (fault, st') = receive (SelectMessages sessionId) st
      in if fault then (\<lparr>data = None, error = Some TransportFailure\<rparr>, st')
         else
           (\<lparr>data = Some (sort_key msg_created_at
                (filter (\<lambda>m. msg_session_id m = sessionId \<and> owns st (msg_session_id m))
                   (messages_tbl st))),
             error = None\<rparr>, st'))"

text \<open>
  Modelled from the spec: the store's answer to \<open>createSession\<close> (4.1), the request
  \<^verbatim>\<open>from('chat_sessions').insert([{ user_id, title }]).select().single()\<close>: the new row is
  the data of the response. The store fills in the identifier and both timestamps, and
  rejects a row for another user.
\<close>

definition insert_session :: "uuid \<Rightarrow> string \<Rightarrow> store \<Rightarrow> ChatSession response \<times> store" where
  "insert_session uid title st =
     (let (fault, st') = receive (InsertSession uid title) st
      in if fault then (\<lparr>data = None, error = Some TransportFailure\<rparr>, st')
         else if uid = auth_uid st then
           (let row = \<lparr>cs_id = next_id st, cs_user_id = uid, cs_title = title,
                       cs_created_at = clock st, cs_updated_at = clock st\<rparr>
            in (\<lparr>data = Some row, error = None\<rparr>,
                st'\<lparr>chat_sessions_tbl := chat_sessions_tbl st @ [row],
                    next_id := Suc (next_id st)\<rparr>))
         else (\<lparr>data = None, error = Some AuthorizationDenied\<rparr>, st'))"

text \<open>
  Modelled from the spec: the store's answer to \<open>appendMessage\<close> (4.2), the request
  \<^verbatim>\<open>from('messages').insert([{ session_id, role, content }])\<close>: no row is asked back, so
  the data of a successful response is null. A message for a session the user does not
  own is rejected.
\<close>

definition insert_message ::
  "uuid \<Rightarrow> role \<Rightarrow> string \<Rightarrow> store \<Rightarrow> unit response \<times> store" where
  "insert_message sessionId r content st =
     (let (fault, st') = receive (InsertMessage sessionId r content) st
      in if fault then (\<lparr>data = None, error = Some TransportFailure\<rparr>, st')
         else if owns st sessionId then
           (let row = \<lparr>msg_id = next_id st, msg_session_id = sessionId, msg_role = r,
                       msg_content = content, msg_created_at = clock st\<rparr>
            in (\<lparr>data = None, error = None\<rparr>,
                st'\<lparr>messages_tbl := messages_tbl st @ [row],
                    next_id := Suc (next_id st)\<rparr>))
         else (\<lparr>data = None, error = Some AuthorizationDenied\<rparr>, st'))"

text \<open>
  Modelled from the spec: the store's answer to \<open>touchSession\<close> (4.1), the request
  \<^verbatim>\<open>from('chat_sessions').update({ updated_at }).eq('id', sessionId)\<close>: the rows with that
  identifier that the user may write are updated; matching no row is not an error.
\<close>

definition update_session :: "uuid \<Rightarrow> timestamp \<Rightarrow> store \<Rightarrow> unit response \<times> store" where
  "update_session sessionId ts st =
     (let (fault, st') = receive (UpdateSession sessionId ts) st
      in if fault then (\<lparr>data = None, error = Some TransportFailure\<rparr>, st')
         else
           (\<lparr>data = None, error = None\<rparr>,
            st'\<lparr>chat_sessions_tbl :=
                  map (\<lambda>s. if cs_id s = sessionId \<and> cs_user_id s = auth_uid st
                            then s\<lparr>cs_updated_at := ts\<rparr> else s)
                    (chat_sessions_tbl st)\<rparr>))"

text \<open>
  Modelled from the spec: creation and update times are moments of the store's own past
  (section 3). The timestamps in the tables are readings of the clock taken before now.
  This holds of a store with empty tables, and every request and every handler keeps it
  (lemmas \<open>store_inv_empty\<close> to \<open>store_inv_sendMessage\<close>).
\<close>

definition store_inv :: "store \<Rightarrow> bool" where
  "store_inv st =
     (list_all (\<lambda>m. msg_created_at m < clock st) (messages_tbl st)
      \<and> list_all (\<lambda>s. cs_updated_at s < clock st) (chat_sessions_tbl st))"

section \<open>The chat orchestrator\<close>

text \<open>
  The state of the component \<^verbatim>\<open>ChatInterface\<close>: its five state variables, the console
  that errors are written to, and the store it talks to. Each handler runs from start to
  end on the state it was called in.
\<close>

record world =
  sessions :: "ChatSession list"
  currentSession :: "ChatSession option"
  messages :: "Message list"
  input :: string
  loading :: bool
  console :: "(string \<times> store_error) list"
  db :: store

definition view_of ::
  "world \<Rightarrow> ChatSession list \<times> ChatSession option \<times> Message list \<times> string \<times> bool" where
  "view_of w = (sessions w, currentSession w, messages w, input w, loading w)"

definition console_error :: "string \<Rightarrow> store_error \<Rightarrow> world \<Rightarrow> world" where
  "console_error label e w = w\<lparr>console := console w @ [(label, e)]\<rparr>"

definition loadSessions :: "world \<Rightarrow> world" where
  "loadSessions w =
     (let (r, db') = select_sessions (db w);
          w1 = w\<lparr>db := db'\<rparr>
      in case error r of
           Some e \<Rightarrow> console_error ''Error loading sessions:'' e w1
         | None \<Rightarrow>
             (let w2 = w1\<lparr>sessions := (case data r of Some d \<Rightarrow> d | None \<Rightarrow> [])\<rparr>
              in case data r of
                   Some (s # _) \<Rightarrow>
                     if currentSession w = None then w2\<lparr>currentSession := Some s\<rparr> else w2
                 | _ \<Rightarrow> w2))"

definition loadMessages :: "uuid \<Rightarrow> world \<Rightarrow> world" where
  "loadMessages sessionId w =
     (let (r, db') = select_messages sessionId (db w);
          w1 = w\<lparr>db := db'\<rparr>
      in case error r of
           Some e \<Rightarrow> console_error ''Error loading messages:'' e w1
         | None \<Rightarrow> w1\<lparr>messages := (case data r of Some d \<Rightarrow> d | None \<Rightarrow> [])\<rparr>)"

text \<open>\<open>user\<close> is the identifier of the component's \<^verbatim>\<open>user\<close> property.\<close>

definition createNewSession :: "uuid \<Rightarrow> world \<Rightarrow> world" where
  "createNewSession user w =
     (let (r, db') = insert_session user ''New Chat'' (db w);
          w1 = w\<lparr>db := db'\<rparr>
      in case error r of
           Some e \<Rightarrow> console_error ''Error creating session:'' e w1
         | None \<Rightarrow>
             (case data r of
                Some d \<Rightarrow> w1\<lparr>sessions := d # sessions w, currentSession := Some d,
                              messages := []\<rparr>
              | None \<Rightarrow> w1))"

text \<open>
  \<^verbatim>\<open>sendMessage\<close>. The time written by the last request is the client's reading of the
  clock when the request is made.
\<close>

definition sendMessage :: "world \<Rightarrow> world" where
  "sendMessage w =
     (if trim (input w) = [] \<or> currentSession w = None \<or> loading w then w
      else case currentSession w of
        None \<Rightarrow> w
      | Some cur \<Rightarrow>
          (let userMessage = trim (input w);
               w1 = w\<lparr>input := [], loading := True\<rparr>;
               (r1, db1) = insert_message (cs_id cur) User userMessage (db w1);
               w2 = w1\<lparr>db := db1\<rparr>
           in case error r1 of
                Some e \<Rightarrow> (console_error ''Error saving user message:'' e w2)\<lparr>loading := False\<rparr>
              | None \<Rightarrow>
                  (let w3 = loadMessages (cs_id cur) w2;
                       assistantResponse = generateMedicalResponse userMessage;
                       (r2, db2) =
                         insert_message (cs_id cur) Assistant assistantResponse (db w3);
                       w4 = w3\<lparr>db := db2\<rparr>;
                       w5 = (case error r2 of
                               Some e \<Rightarrow> console_error ''Error saving assistant message:'' e w4
                             | None \<Rightarrow> w4);
                       w6 = loadMessages (cs_id cur) w5;
                       (r3, db3) = update_session (cs_id cur) (clock (db w6)) (db w6);
                       w7 = w6\<lparr>db := db3\<rparr>
                   in w7\<lparr>loading := False\<rparr>)))"

section \<open>Example states\<close>

text \<open>
  A store in which user 7 owns session 1, holding one earlier message of that session and
  one message of a session of somebody else; and the component on it, session 1 selected,
  with an input typed in. The argument is the script of transport failures.
\<close>

definition example_session :: ChatSession where
  "example_session =
     \<lparr>cs_id = 1, cs_user_id = 7, cs_title = ''New Chat'', cs_created_at = 100,
      cs_updated_at = 100\<rparr>"

definition example_store :: "bool list \<Rightarrow> store" where
  "example_store fs =
     \<lparr>chat_sessions_tbl =
        [\<lparr>cs_id = 0, cs_user_id = 8, cs_title = ''New Chat'', cs_created_at = 90,
          cs_updated_at = 99\<rparr>,
         example_session],
      messages_tbl =
        [\<lparr>msg_id = 2, msg_session_id = 0, msg_role = User, msg_content = ''cough'',
          msg_created_at = 98\<rparr>,
         \<lparr>msg_id = 3, msg_session_id = 1, msg_role = User, msg_content = ''hello'',
          msg_created_at = 101\<rparr>],
      auth_uid = 7, clock = 110, next_id = 4, faults = fs, requests = []\<rparr>"

definition example_world :: "bool list \<Rightarrow> world" where
  "example_world fs =
     \<lparr>sessions = [example_session], currentSession = Some example_session,
      messages = [], input = ''  I have a Headache '', loading = False, console = [],
      db = example_store fs\<rparr>"

text \<open>The same store seen by user 9, who owns no session in it.\<close>

definition example_guest_store :: store where
  "example_guest_store = (example_store [])\<lparr>auth_uid := 9\<rparr>"

section \<open>Facts about the string functions\<close>

lemma startsWith_iff: "startsWith s t \<longleftrightarrow> (\<exists>q. s = t @ q)"
  by (induction s t rule: startsWith.induct) auto

lemma includes_str_iff: "includes_str s t \<longleftrightarrow> (\<exists>p q. s = p @ t @ q)"
proof (induction s)
  case Nil
  then show ?case by auto
next
  case (Cons x xs)
  show ?case
  proof
    assume "includes_str (x # xs) t"
    then consider "startsWith (x # xs) t" | "includes_str xs t" by auto
    then show "\<exists>p q. x # xs = p @ t @ q"
    proof cases
      case 1
      then obtain q where "x # xs = t @ q" by (auto simp: startsWith_iff)
      then have "x # xs = [] @ t @ q" by simp
      then show ?thesis by blast
    next
      case 2
      then obtain p q where "xs = p @ t @ q" using Cons.IH by blast
      then have "x # xs = (x # p) @ t @ q" by simp
      then show ?thesis by blast
    qed
  next
    assume "\<exists>p q. x # xs = p @ t @ q"
    then obtain p q where pq: "x # xs = p @ t @ q" by blast
    show "includes_str (x # xs) t"
    proof (cases p)
      case Nil
      with pq have "startsWith (x # xs) t" by (auto simp: startsWith_iff)
      then show ?thesis by simp
    next
      case (Cons y ys)
      with pq have "xs = ys @ t @ q" by simp
      then have "includes_str xs t" using Cons.IH by blast
      then show ?thesis by simp
    qed
  qed
qed

lemma includes_str_occurs_in: "includes_str s t = occurs_in t s"
  by (simp add: includes_str_iff occurs_in_def)

lemma replies_distinct:
  "distinct [headache_advice, fever_advice, cold_flu_advice, cough_advice, generic_disclaimer]"
  by (simp add: headache_advice_def fever_advice_def cold_flu_advice_def cough_advice_def
      generic_disclaimer_def)

lemma generateMedicalResponse_range:
  "generateMedicalResponse query \<in>
     {headache_advice, fever_advice, cold_flu_advice, cough_advice, generic_disclaimer}"
  by (simp add: generateMedicalResponse_def Let_def)

lemma generateMedicalResponse_refines:
  "generateMedicalResponse query = selector_spec query"
  by (simp add: generateMedicalResponse_def selector_spec_def keyword_rules_def Let_def
      includes_str_occurs_in)

section \<open>Facts about the store and the handlers\<close>

lemma insort_key_snoc:
  "f x \<le> f a \<Longrightarrow> insort_key f x (zs @ [a]) = insort_key f x zs @ [a]"
  by (induction zs) auto

lemma foldr_insort_key_snoc:
  "\<forall>x \<in> set xs. f x \<le> f a \<Longrightarrow>
     foldr (insort_key f) xs (ys @ [a]) = foldr (insort_key f) xs ys @ [a]"
  by (induction xs) (auto simp: insort_key_snoc)

lemma sort_key_snoc:
  assumes "\<forall>x \<in> set xs. f x \<le> f a"
  shows "sort_key f (xs @ [a]) = sort_key f xs @ [a]"
proof -
  have "sort_key f (xs @ [a]) = foldr (insort_key f) xs ([] @ [a])"
    by (simp add: sort_key_def)
  also have "\<dots> = foldr (insort_key f) xs [] @ [a]"
    using assms by (rule foldr_insort_key_snoc)
  finally show ?thesis by (simp add: sort_key_def)
qed

lemma nth_fault_tl: "nth_fault (tl fs) n = nth_fault fs (Suc n)"
  by simp

lemma insert_message_ok:
  assumes "\<not> next_fault (faults st)" and "owns st sid"
  shows "insert_message sid r c st =
    (\<lparr>data = None, error = None\<rparr>,
     st\<lparr>requests := requests st @ [InsertMessage sid r c], faults := tl (faults st),
        clock := Suc (clock st),
        messages_tbl := messages_tbl st @
          [\<lparr>msg_id = next_id st, msg_session_id = sid, msg_role = r, msg_content = c,
            msg_created_at = clock st\<rparr>],
        next_id := Suc (next_id st)\<rparr>)"
  using assms by (simp add: insert_message_def receive_def Let_def)

lemma insert_message_fault:
  assumes "next_fault (faults st)"
  shows "insert_message sid r c st =
    (\<lparr>data = None, error = Some TransportFailure\<rparr>,
     st\<lparr>requests := requests st @ [InsertMessage sid r c], faults := tl (faults st),
        clock := Suc (clock st)\<rparr>)"
  using assms by (simp add: insert_message_def receive_def Let_def)

lemma insert_message_error:
  assumes "error (fst (insert_message sid r c st)) = Some e"
  shows "insert_message sid r c st =
    (\<lparr>data = None, error = Some e\<rparr>,
     st\<lparr>requests := requests st @ [InsertMessage sid r c], faults := tl (faults st),
        clock := Suc (clock st)\<rparr>)"
  using assms by (auto simp: insert_message_def receive_def Let_def split: if_splits)

lemma select_messages_ok:
  assumes "\<not> next_fault (faults st)"
  shows "select_messages sid st =
    (\<lparr>data = Some (sort_key msg_created_at
         (filter (\<lambda>m. msg_session_id m = sid \<and> owns st (msg_session_id m)) (messages_tbl st))),
      error = None\<rparr>,
     st\<lparr>requests := requests st @ [SelectMessages sid], faults := tl (faults st),
        clock := Suc (clock st)\<rparr>)"
  using assms by (simp add: select_messages_def receive_def Let_def)

lemma loadMessages_ok:
  assumes "\<not> next_fault (faults (db w))"
  shows "loadMessages sid w =
    w\<lparr>db := (db w)\<lparr>requests := requests (db w) @ [SelectMessages sid],
         faults := tl (faults (db w)), clock := Suc (clock (db w))\<rparr>,
      messages := sort_key msg_created_at
         (filter (\<lambda>m. msg_session_id m = sid \<and> owns (db w) (msg_session_id m))
            (messages_tbl (db w)))\<rparr>"
  using assms by (simp add: loadMessages_def select_messages_ok Let_def)

lemma loadMessages_fault:
  assumes "next_fault (faults (db w))"
  shows "loadMessages sid w =
    w\<lparr>db := (db w)\<lparr>requests := requests (db w) @ [SelectMessages sid],
         faults := tl (faults (db w)), clock := Suc (clock (db w))\<rparr>,
      console := console w @ [(''Error loading messages:'', TransportFailure)]\<rparr>"
  using assms by (simp add: loadMessages_def select_messages_def receive_def Let_def console_error_def)

lemma owns_frame [simp]:
  "owns (st\<lparr>requests := a\<rparr>) sid = owns st sid"
  "owns (st\<lparr>faults := b\<rparr>) sid = owns st sid"
  "owns (st\<lparr>clock := c\<rparr>) sid = owns st sid"
  "owns (st\<lparr>messages_tbl := d\<rparr>) sid = owns st sid"
  "owns (st\<lparr>next_id := e\<rparr>) sid = owns st sid"
  by (simp_all add: owns_def)

lemma owned_filter:
  assumes "owns st sid"
  shows "filter (\<lambda>m. msg_session_id m = sid \<and> owns st (msg_session_id m)) ms
       = filter (\<lambda>m. msg_session_id m = sid) ms"
  using assms by (intro filter_cong) auto

lemma loadMessages_owned:
  assumes "\<not> next_fault (faults (db w))" and "owns (db w) sid"
  shows "loadMessages sid w =
    w\<lparr>db := (db w)\<lparr>requests := requests (db w) @ [SelectMessages sid],
         faults := tl (faults (db w)), clock := Suc (clock (db w))\<rparr>,
      messages := sort_key msg_created_at
         (filter (\<lambda>m. msg_session_id m = sid) (messages_tbl (db w)))\<rparr>"
  using assms by (simp add: loadMessages_ok owned_filter)

lemma update_session_ok:
  assumes "\<not> next_fault (faults st)"
  shows "update_session sid ts st =
    (\<lparr>data = None, error = None\<rparr>,
     st\<lparr>requests := requests st @ [UpdateSession sid ts], faults := tl (faults st),
        clock := Suc (clock st),
        chat_sessions_tbl :=
          map (\<lambda>s. if cs_id s = sid \<and> cs_user_id s = auth_uid st
                    then s\<lparr>cs_updated_at := ts\<rparr> else s) (chat_sessions_tbl st)\<rparr>)"
  using assms by (simp add: update_session_def receive_def Let_def)

lemma update_session_fault:
  assumes "next_fault (faults st)"
  shows "update_session sid ts st =
    (\<lparr>data = None, error = Some TransportFailure\<rparr>,
     st\<lparr>requests := requests st @ [UpdateSession sid ts], faults := tl (faults st),
        clock := Suc (clock st)\<rparr>)"
  using assms by (simp add: update_session_def receive_def Let_def)

lemma sort_key_filter_snoc:
  assumes "list_all (\<lambda>m. msg_created_at m \<le> msg_created_at u) ms"
    and "msg_session_id u = sid"
  shows "sort_key msg_created_at (filter (\<lambda>m. msg_session_id m = sid) (ms @ [u]))
       = sort_key msg_created_at (filter (\<lambda>m. msg_session_id m = sid) ms) @ [u]"
proof -
  have "\<forall>x \<in> set (filter (\<lambda>m. msg_session_id m = sid) ms).
          msg_created_at x \<le> msg_created_at u"
    using assms(1) by (auto simp: list_all_iff)
  then show ?thesis
    using assms(2) by (simp add: sort_key_snoc)
qed

lemma nth_fault_unfold:
  "nth_fault fs 1 = next_fault (tl fs)"
  "nth_fault fs 2 = next_fault (tl (tl fs))"
  "nth_fault fs 3 = next_fault (tl (tl (tl fs)))"
  "nth_fault fs 4 = next_fault (tl (tl (tl (tl fs))))"
  by (simp_all add: eval_nat_numeral)

lemma sendMessage_all_ok:
  assumes cur: "currentSession w = Some cur" and idle: "\<not> loading w"
    and nonblank: "trim (input w) \<noteq> []"
    and f0: "\<not> nth_fault (faults (db w)) 0" and f1: "\<not> nth_fault (faults (db w)) 1"
    and f2: "\<not> nth_fault (faults (db w)) 2" and f3: "\<not> nth_fault (faults (db w)) 3"
    and f4: "\<not> nth_fault (faults (db w)) 4"
    and own: "owns (db w) (cs_id cur)"
    and inv: "store_inv (db w)"
    and u: "u = \<lparr>msg_id = next_id (db w), msg_session_id = cs_id cur, msg_role = User,
                 msg_content = trim (input w), msg_created_at = clock (db w)\<rparr>"
    and a: "a = \<lparr>msg_id = Suc (next_id (db w)), msg_session_id = cs_id cur,
                 msg_role = Assistant,
                 msg_content = generateMedicalResponse (trim (input w)),
                 msg_created_at = clock (db w) + 2\<rparr>"
  shows "sendMessage w =
    w\<lparr>input := [], loading := False,
      messages := sort_key msg_created_at
         (filter (\<lambda>m. msg_session_id m = cs_id cur) (messages_tbl (db w))) @ [u, a],
      db := (db w)\<lparr>
        requests := requests (db w) @
          [InsertMessage (cs_id cur) User (trim (input w)),
           SelectMessages (cs_id cur),
           InsertMessage (cs_id cur) Assistant (generateMedicalResponse (trim (input w))),
           SelectMessages (cs_id cur),
           UpdateSession (cs_id cur) (clock (db w) + 4)],
        faults := tl (tl (tl (tl (tl (faults (db w)))))),
        clock := clock (db w) + 5,
        messages_tbl := messages_tbl (db w) @ [u, a],
        next_id := next_id (db w) + 2,
        chat_sessions_tbl :=
          map (\<lambda>s. if cs_id s = cs_id cur \<and> cs_user_id s = auth_uid (db w)
                    then s\<lparr>cs_updated_at := clock (db w) + 4\<rparr> else s)
            (chat_sessions_tbl (db w))\<rparr>\<rparr>"
proof -
  have le1: "list_all (\<lambda>m. msg_created_at m \<le> msg_created_at u) (messages_tbl (db w))"
    using inv by (auto simp: store_inv_def list_all_iff u)
  have le2: "list_all (\<lambda>m. msg_created_at m \<le> msg_created_at a) (messages_tbl (db w) @ [u])"
    using inv by (auto simp: store_inv_def list_all_iff u a)
  have s1: "sort_key msg_created_at
      (filter (\<lambda>m. msg_session_id m = cs_id cur) (messages_tbl (db w) @ [u]))
    = sort_key msg_created_at
      (filter (\<lambda>m. msg_session_id m = cs_id cur) (messages_tbl (db w))) @ [u]"
    using le1 by (rule sort_key_filter_snoc) (simp add: u)
  have s2: "sort_key msg_created_at
      (filter (\<lambda>m. msg_session_id m = cs_id cur) ((messages_tbl (db w) @ [u]) @ [a]))
    = sort_key msg_created_at
      (filter (\<lambda>m. msg_session_id m = cs_id cur) (messages_tbl (db w) @ [u])) @ [a]"
    using le2 by (rule sort_key_filter_snoc) (simp add: a)
  have s3: "sort_key msg_created_at
      (filter (\<lambda>m. msg_session_id m = cs_id cur) (messages_tbl (db w) @ [u, a]))
    = sort_key msg_created_at
      (filter (\<lambda>m. msg_session_id m = cs_id cur) (messages_tbl (db w))) @ [u, a]"
    using s1 s2 by simp
  note fs = f0 [simplified] f1 [unfolded nth_fault_unfold] f2 [unfolded nth_fault_unfold]
    f3 [unfolded nth_fault_unfold] f4 [unfolded nth_fault_unfold]
  show ?thesis
    using cur idle nonblank fs own s1 s3
    by (simp add: sendMessage_def Let_def insert_message_ok loadMessages_owned
        update_session_ok u a eval_nat_numeral)
qed

lemma select_sessions_ok:
  assumes "\<not> next_fault (faults st)"
  shows "select_sessions st =
    (\<lparr>data = Some (rev (sort_key cs_updated_at
         (filter (\<lambda>s. cs_user_id s = auth_uid st) (chat_sessions_tbl st)))),
      error = None\<rparr>,
     st\<lparr>requests := requests st @ [SelectSessions], faults := tl (faults st),
        clock := Suc (clock st)\<rparr>)"
  using assms by (simp add: select_sessions_def receive_def Let_def)

lemma select_sessions_error:
  assumes "error (fst (select_sessions st)) = Some e"
  shows "select_sessions st =
    (\<lparr>data = None, error = Some e\<rparr>,
     st\<lparr>requests := requests st @ [SelectSessions], faults := tl (faults st),
        clock := Suc (clock st)\<rparr>)"
  using assms by (auto simp: select_sessions_def receive_def Let_def split: if_splits)

lemma select_messages_error:
  assumes "error (fst (select_messages sid st)) = Some e"
  shows "select_messages sid st =
    (\<lparr>data = None, error = Some e\<rparr>,
     st\<lparr>requests := requests st @ [SelectMessages sid], faults := tl (faults st),
        clock := Suc (clock st)\<rparr>)"
  using assms by (auto simp: select_messages_def receive_def Let_def split: if_splits)

lemma insert_session_error:
  assumes "error (fst (insert_session uid title st)) = Some e"
  shows "insert_session uid title st =
    (\<lparr>data = None, error = Some e\<rparr>,
     st\<lparr>requests := requests st @ [InsertSession uid title], faults := tl (faults st),
        clock := Suc (clock st)\<rparr>)"
  using assms by (auto simp: insert_session_def receive_def Let_def split: if_splits)

lemma insert_session_data:
  assumes "insert_session uid title st = (r, st')" and "data r = Some A"
  shows "A = \<lparr>cs_id = next_id st, cs_user_id = auth_uid st, cs_title = title,
              cs_created_at = clock st, cs_updated_at = clock st\<rparr>
    \<and> st' = st\<lparr>requests := requests st @ [InsertSession uid title],
               faults := tl (faults st), clock := Suc (clock st),
               chat_sessions_tbl := chat_sessions_tbl st @ [A],
               next_id := Suc (next_id st)\<rparr>"
  using assms by (auto simp: insert_session_def receive_def Let_def split: if_splits)

lemma update_session_no_error:
  assumes "update_session sid ts st = (r, st')" and "error r = None"
  shows "st' = st\<lparr>requests := requests st @ [UpdateSession sid ts],
               faults := tl (faults st), clock := Suc (clock st),
               chat_sessions_tbl :=
                 map (\<lambda>s. if cs_id s = sid \<and> cs_user_id s = auth_uid st
                           then s\<lparr>cs_updated_at := ts\<rparr> else s) (chat_sessions_tbl st)\<rparr>"
  using assms by (auto simp: update_session_def receive_def Let_def split: if_splits)

lemma select_sessions_no_error:
  assumes "select_sessions st = (r, st')" and "error r = None"
  shows "data r = Some (rev (sort_key cs_updated_at
           (filter (\<lambda>s. cs_user_id s = auth_uid st) (chat_sessions_tbl st))))"
  using assms by (auto simp: select_sessions_def receive_def Let_def split: if_splits)

lemma sorted_wrt_rev_sort_key:
  "sorted_wrt (\<lambda>a b. f b \<le> f a) (rev (sort_key f xs))"
proof -
  have "sorted (map f (sort_key f xs))" by (rule sorted_sort_key)
  then have "sorted_wrt (\<lambda>a b. f a \<le> f b) (sort_key f xs)"
    by (simp add: sorted_wrt_map)
  then show ?thesis by (simp add: sorted_wrt_rev)
qed

lemma create_create_touch_list:
  assumes none: "\<forall>s \<in> set (chat_sessions_tbl st). cs_user_id s \<noteq> auth_uid st"
    and a: "insert_session (auth_uid st) ''New Chat'' st = (rA, st1)" "data rA = Some A"
    and b: "insert_session (auth_uid st) ''New Chat'' st1 = (rB, st2)" "data rB = Some B"
    and t: "update_session (cs_id A) (clock st2) st2 = (rT, st3)" "error rT = None"
    and l: "select_sessions st3 = (rL, st4)" "error rL = None"
  shows "data rL = Some [A\<lparr>cs_updated_at := clock st2\<rparr>, B]
    \<and> cs_updated_at B < clock st2"
proof -
  note A = insert_session_data [OF a]
  have u1: "auth_uid st1 = auth_uid st" using A by simp
  note B = insert_session_data [OF b [unfolded u1 [symmetric]]]
  have tbl2: "chat_sessions_tbl st2 = chat_sessions_tbl st @ [A, B]"
    using A B by simp
  have u2: "auth_uid st2 = auth_uid st" using A B by simp
  have ids: "cs_id B \<noteq> cs_id A" "cs_user_id A = auth_uid st" "cs_user_id B = auth_uid st"
    "cs_updated_at B < clock st2"
    using A B by simp_all
  note T = update_session_no_error [OF t]
  have u3: "auth_uid st3 = auth_uid st" using T u2 by simp
  have old: "filter (\<lambda>s. cs_user_id s = auth_uid st)
      (map (\<lambda>s. if cs_id s = cs_id A \<and> cs_user_id s = auth_uid st
                 then s\<lparr>cs_updated_at := clock st2\<rparr> else s) (chat_sessions_tbl st)) = []"
    using none by (auto simp: filter_empty_conv)
  have "filter (\<lambda>s. cs_user_id s = auth_uid st3) (chat_sessions_tbl st3)
      = [A\<lparr>cs_updated_at := clock st2\<rparr>, B]"
    using T tbl2 u2 u3 ids old by simp
  then have "data rL = Some (rev (sort_key cs_updated_at [A\<lparr>cs_updated_at := clock st2\<rparr>, B]))"
    using select_sessions_no_error [OF l] by simp
  then show ?thesis using ids by simp
qed

text \<open>
  The invariant of the store: it holds of a store with empty tables, and every request
  and every handler keeps it.
\<close>

lemma store_inv_empty:
  "store_inv \<lparr>chat_sessions_tbl = [], messages_tbl = [], auth_uid = uid, clock = c,
     next_id = n, faults = fs, requests = rs\<rparr>"
  by (simp add: store_inv_def)

lemma store_inv_tick:
  "store_inv st \<Longrightarrow> store_inv (st\<lparr>clock := Suc (clock st)\<rparr>)"
  by (auto simp: store_inv_def list_all_iff less_Suc_eq)

lemma store_inv_select_sessions: "store_inv st \<Longrightarrow> store_inv (snd (select_sessions st))"
  by (auto simp: store_inv_def list_all_iff less_Suc_eq select_sessions_def receive_def Let_def)

lemma store_inv_select_messages:
  "store_inv st \<Longrightarrow> store_inv (snd (select_messages sid st))"
  by (auto simp: store_inv_def list_all_iff less_Suc_eq select_messages_def receive_def Let_def)

lemma store_inv_insert_session:
  "store_inv st \<Longrightarrow> store_inv (snd (insert_session uid title st))"
  by (auto simp: store_inv_def list_all_iff less_Suc_eq insert_session_def receive_def Let_def)

lemma store_inv_insert_message:
  "store_inv st \<Longrightarrow> store_inv (snd (insert_message sid r c st))"
  by (auto simp: store_inv_def list_all_iff less_Suc_eq insert_message_def receive_def Let_def)

lemma store_inv_update_session:
  "store_inv st \<Longrightarrow> ts \<le> clock st \<Longrightarrow> store_inv (snd (update_session sid ts st))"
  by (auto simp: store_inv_def list_all_iff less_Suc_eq update_session_def receive_def Let_def)

lemma db_loadMessages: "db (loadMessages sid w) = snd (select_messages sid (db w))"
  by (simp add: loadMessages_def Let_def console_error_def split: prod.splits option.splits)

lemma store_inv_loadMessages:
  "store_inv (db w) \<Longrightarrow> store_inv (db (loadMessages sid w))"
  by (simp add: db_loadMessages store_inv_select_messages)

lemma store_inv_loadSessions:
  "store_inv (db w) \<Longrightarrow> store_inv (db (loadSessions w))"
proof -
  have "db (loadSessions w) = snd (select_sessions (db w))"
    by (simp add: loadSessions_def Let_def console_error_def
        split: prod.splits option.splits list.splits)
  then show "store_inv (db w) \<Longrightarrow> store_inv (db (loadSessions w))"
    by (simp add: store_inv_select_sessions)
qed

lemma store_inv_createNewSession:
  "store_inv (db w) \<Longrightarrow> store_inv (db (createNewSession user w))"
proof -
  have "db (createNewSession user w) = snd (insert_session user ''New Chat'' (db w))"
    by (simp add: createNewSession_def Let_def console_error_def
        split: prod.splits option.splits)
  then show "store_inv (db w) \<Longrightarrow> store_inv (db (createNewSession user w))"
    by (simp add: store_inv_insert_session)
qed

lemma store_inv_sendMessage:
  assumes "store_inv (db w)"
  shows "store_inv (db (sendMessage w))"
proof (cases "trim (input w) = [] \<or> currentSession w = None \<or> loading w")
  case True
  then show ?thesis using assms by (simp add: sendMessage_def)
next
  case False
  then obtain cur where cur: "currentSession w = Some cur" by auto
  let ?d1 = "snd (insert_message (cs_id cur) User (trim (input w)) (db w))"
  let ?r1 = "fst (insert_message (cs_id cur) User (trim (input w)) (db w))"
  have i1: "store_inv ?d1" using assms by (rule store_inv_insert_message)
  show ?thesis
  proof (cases "error ?r1")
    case (Some e)
    then show ?thesis using False cur i1
      by (simp add: sendMessage_def Let_def split_def console_error_def)
  next
    case None
    let ?d2 = "snd (select_messages (cs_id cur) ?d1)"
    let ?d3 = "snd (insert_message (cs_id cur) Assistant
        (generateMedicalResponse (trim (input w))) ?d2)"
    let ?d4 = "snd (select_messages (cs_id cur) ?d3)"
    let ?d5 = "snd (update_session (cs_id cur) (clock ?d4) ?d4)"
    have "store_inv ?d5"
      by (intro store_inv_update_session store_inv_select_messages
          store_inv_insert_message i1 order_refl)
    moreover have "db (sendMessage w) = ?d5"
      using False cur None
      by (simp add: sendMessage_def Let_def split_def console_error_def db_loadMessages
          split: option.splits)
    ultimately show ?thesis by simp
  qed
qed

lemma select_messages_again:
  "fst (select_messages sid (snd (select_messages sid st))) =
     \<lparr>data = (if next_fault (tl (faults st)) then None
              else Some (sort_key msg_created_at
                (filter (\<lambda>m. msg_session_id m = sid \<and> owns st (msg_session_id m))
                   (messages_tbl st)))),
      error = (if next_fault (tl (faults st)) then Some TransportFailure else None)\<rparr>"
  by (simp add: select_messages_def receive_def Let_def)

section \<open>Claims about the response selector\<close>

text \<open>
  C1. Whenever the lower-cased input contains \<open>headache\<close>, at any position, the selector
  returns the headache advice, whatever else the input contains: the headache test is the
  first one made.
\<close>

theorem headache_first_priority:
  assumes "toLowerCase query = p @ ''headache'' @ q"
  shows "generateMedicalResponse query = headache_advice"
proof -
  have "includes_str (toLowerCase query) ''headache''"
    using assms includes_str_iff by blast
  then show ?thesis
    by (simp add: generateMedicalResponse_def Let_def)
qed

theorem headache_first_priority_witness:
  "toLowerCase ''I have a Fever, a cold, the FLU, a cough and a HEADACHE today''
     = ''i have a fever, a cold, the flu, a cough and a '' @ ''headache'' @ '' today''
   \<and> generateMedicalResponse ''I have a Fever, a cold, the FLU, a cough and a HEADACHE today''
     = headache_advice"
proof -
  have h: "toLowerCase ''I have a Fever, a cold, the FLU, a cough and a HEADACHE today''
     = ''i have a fever, a cold, the flu, a cough and a '' @ ''headache'' @ '' today''"
    by code_simp
  show ?thesis
    using h headache_first_priority [OF h] by simp
qed

text \<open>
  C2. The selector is a total function of its input alone. Its value is always one of
  five fixed, pairwise different strings; it is the reply of the first rule, in the order
  headache, fever, cold or flu, cough, one of whose keywords occurs in the lower-cased
  input; and it is the generic disclaimer when no keyword of the four groups occurs there.
\<close>

theorem selector_total_priority:
  "generateMedicalResponse query = selector_spec query
   \<and> generateMedicalResponse query \<in>
       {headache_advice, fever_advice, cold_flu_advice, cough_advice, generic_disclaimer}
   \<and> distinct [headache_advice, fever_advice, cold_flu_advice, cough_advice,
        generic_disclaimer]
   \<and> (occurs_in ''headache'' (toLowerCase query)
        \<longrightarrow> generateMedicalResponse query = headache_advice)
   \<and> (\<not> occurs_in ''headache'' (toLowerCase query)
        \<and> occurs_in ''fever'' (toLowerCase query)
        \<longrightarrow> generateMedicalResponse query = fever_advice)
   \<and> (\<not> occurs_in ''headache'' (toLowerCase query)
        \<and> \<not> occurs_in ''fever'' (toLowerCase query)
        \<and> (occurs_in ''cold'' (toLowerCase query) \<or> occurs_in ''flu'' (toLowerCase query))
        \<longrightarrow> generateMedicalResponse query = cold_flu_advice)
   \<and> (\<not> occurs_in ''headache'' (toLowerCase query)
        \<and> \<not> occurs_in ''fever'' (toLowerCase query)
        \<and> \<not> occurs_in ''cold'' (toLowerCase query)
        \<and> \<not> occurs_in ''flu'' (toLowerCase query)
        \<and> occurs_in ''cough'' (toLowerCase query)
        \<longrightarrow> generateMedicalResponse query = cough_advice)
   \<and> (\<not> occurs_in ''headache'' (toLowerCase query)
        \<and> \<not> occurs_in ''fever'' (toLowerCase query)
        \<and> \<not> occurs_in ''cold'' (toLowerCase query)
        \<and> \<not> occurs_in ''flu'' (toLowerCase query)
        \<and> \<not> occurs_in ''cough'' (toLowerCase query)
        \<longrightarrow> generateMedicalResponse query = generic_disclaimer)"
proof -
  have "generateMedicalResponse query = selector_spec query"
    by (rule generateMedicalResponse_refines)
  moreover have "generateMedicalResponse query \<in>
       {headache_advice, fever_advice, cold_flu_advice, cough_advice, generic_disclaimer}"
    by (rule generateMedicalResponse_range)
  moreover note replies_distinct
  moreover have "occurs_in ''headache'' (toLowerCase query)
        \<longrightarrow> generateMedicalResponse query = headache_advice"
    by (simp add: generateMedicalResponse_def Let_def includes_str_occurs_in)
  moreover have "\<not> occurs_in ''headache'' (toLowerCase query)
        \<and> occurs_in ''fever'' (toLowerCase query)
        \<longrightarrow> generateMedicalResponse query = fever_advice"
    by (simp add: generateMedicalResponse_def Let_def includes_str_occurs_in)
  moreover have "\<not> occurs_in ''headache'' (toLowerCase query)
        \<and> \<not> occurs_in ''fever'' (toLowerCase query)
        \<and> (occurs_in ''cold'' (toLowerCase query) \<or> occurs_in ''flu'' (toLowerCase query))
        \<longrightarrow> generateMedicalResponse query = cold_flu_advice"
    by (simp add: generateMedicalResponse_def Let_def includes_str_occurs_in)
  moreover have "\<not> occurs_in ''headache'' (toLowerCase query)
        \<and> \<not> occurs_in ''fever'' (toLowerCase query)
        \<and> \<not> occurs_in ''cold'' (toLowerCase query)
        \<and> \<not> occurs_in ''flu'' (toLowerCase query)
        \<and> occurs_in ''cough'' (toLowerCase query)
        \<longrightarrow> generateMedicalResponse query = cough_advice"
    by (simp add: generateMedicalResponse_def Let_def includes_str_occurs_in)
  moreover have "\<not> occurs_in ''headache'' (toLowerCase query)
        \<and> \<not> occurs_in ''fever'' (toLowerCase query)
        \<and> \<not> occurs_in ''cold'' (toLowerCase query)
        \<and> \<not> occurs_in ''flu'' (toLowerCase query)
        \<and> \<not> occurs_in ''cough'' (toLowerCase query)
        \<longrightarrow> generateMedicalResponse query = generic_disclaimer"
    by (simp add: generateMedicalResponse_def Let_def includes_str_occurs_in)
  ultimately show ?thesis by blast
qed

theorem selector_total_priority_witness:
  "generateMedicalResponse ''My COUGH and Fever got worse'' = fever_advice
   \<and> generateMedicalResponse ''is it the FLU or a cough?'' = cold_flu_advice
   \<and> generateMedicalResponse ''I keep coughing'' = cough_advice
   \<and> generateMedicalResponse ''my knee hurts'' = generic_disclaimer
   \<and> selector_spec ''my knee hurts'' = generic_disclaimer"
proof -
  have a: "\<not> occurs_in ''headache'' (toLowerCase ''My COUGH and Fever got worse'')"
    "occurs_in ''fever'' (toLowerCase ''My COUGH and Fever got worse'')"
    unfolding includes_str_occurs_in [symmetric] by code_simp+
  have b: "\<not> occurs_in ''headache'' (toLowerCase ''is it the FLU or a cough?'')"
    "\<not> occurs_in ''fever'' (toLowerCase ''is it the FLU or a cough?'')"
    "occurs_in ''flu'' (toLowerCase ''is it the FLU or a cough?'')"
    unfolding includes_str_occurs_in [symmetric] by code_simp+
  have c: "\<not> occurs_in ''headache'' (toLowerCase ''I keep coughing'')"
    "\<not> occurs_in ''fever'' (toLowerCase ''I keep coughing'')"
    "\<not> occurs_in ''cold'' (toLowerCase ''I keep coughing'')"
    "\<not> occurs_in ''flu'' (toLowerCase ''I keep coughing'')"
    "occurs_in ''cough'' (toLowerCase ''I keep coughing'')"
    unfolding includes_str_occurs_in [symmetric] by code_simp+
  have d: "\<not> occurs_in ''headache'' (toLowerCase ''my knee hurts'')"
    "\<not> occurs_in ''fever'' (toLowerCase ''my knee hurts'')"
    "\<not> occurs_in ''cold'' (toLowerCase ''my knee hurts'')"
    "\<not> occurs_in ''flu'' (toLowerCase ''my knee hurts'')"
    "\<not> occurs_in ''cough'' (toLowerCase ''my knee hurts'')"
    unfolding includes_str_occurs_in [symmetric] by code_simp+
  have r1: "generateMedicalResponse ''My COUGH and Fever got worse'' = fever_advice"
    using selector_total_priority [of "''My COUGH and Fever got worse''"] a by blast
  have r2: "generateMedicalResponse ''is it the FLU or a cough?'' = cold_flu_advice"
    using selector_total_priority [of "''is it the FLU or a cough?''"] b by blast
  have r3: "generateMedicalResponse ''I keep coughing'' = cough_advice"
    using selector_total_priority [of "''I keep coughing''"] c by blast
  have r4: "generateMedicalResponse ''my knee hurts'' = generic_disclaimer
      \<and> generateMedicalResponse ''my knee hurts'' = selector_spec ''my knee hurts''"
    using selector_total_priority [of "''my knee hurts''"] d by blast
  from r4 have "selector_spec ''my knee hurts'' = generic_disclaimer"
    by (elim conjE) (rule trans [OF sym])
  with r1 r2 r3 r4 show ?thesis by blast
qed

section \<open>Claims about sending a message\<close>

text \<open>
  C3. A session is selected, no exchange is in flight, the trimmed input is not empty and
  every store call succeeds: none of the five requests fails in transport and the user
  owns the selected session. Then \<open>sendMessage\<close> appends to the messages table one
  \<open>user\<close> message whose content is the trimmed input and after it one \<open>assistant\<close>
  message whose content is the selector's reply to the trimmed input, in this order among
  its five requests; it sets the \<open>updated_at\<close> of the session to the time of the last
  request; the reloaded message list is the earlier messages of the session followed by
  that pair; and the component is idle again, its input cleared, with nothing logged.
  The store is one whose timestamps were read from its clock in the past, as \<open>store_inv\<close>
  says; the new messages are then the latest of the session.
\<close>

theorem send_success:
  assumes "currentSession w = Some cur" and "\<not> loading w" and "trim (input w) \<noteq> []"
    and "\<forall>n<5. \<not> nth_fault (faults (db w)) n"
    and "owns (db w) (cs_id cur)"
    and "store_inv (db w)"
    and "u = \<lparr>msg_id = next_id (db w), msg_session_id = cs_id cur, msg_role = User,
               msg_content = trim (input w), msg_created_at = clock (db w)\<rparr>"
    and "a = \<lparr>msg_id = Suc (next_id (db w)), msg_session_id = cs_id cur,
               msg_role = Assistant,
               msg_content = generateMedicalResponse (trim (input w)),
               msg_created_at = clock (db w) + 2\<rparr>"
  shows "messages_tbl (db (sendMessage w)) = messages_tbl (db w) @ [u, a]
    \<and> requests (db (sendMessage w)) = requests (db w) @
         [InsertMessage (cs_id cur) User (trim (input w)),
          SelectMessages (cs_id cur),
          InsertMessage (cs_id cur) Assistant (generateMedicalResponse (trim (input w))),
          SelectMessages (cs_id cur),
          UpdateSession (cs_id cur) (clock (db w) + 4)]
    \<and> chat_sessions_tbl (db (sendMessage w)) =
         map (\<lambda>s. if cs_id s = cs_id cur \<and> cs_user_id s = auth_uid (db w)
                   then s\<lparr>cs_updated_at := clock (db w) + 4\<rparr> else s)
           (chat_sessions_tbl (db w))
    \<and> messages (sendMessage w) =
         sort_key msg_created_at
           (filter (\<lambda>m. msg_session_id m = cs_id cur) (messages_tbl (db w))) @ [u, a]
    \<and> loading (sendMessage w) = False
    \<and> input (sendMessage w) = []
    \<and> console (sendMessage w) = console w
    \<and> sessions (sendMessage w) = sessions w
    \<and> currentSession (sendMessage w) = currentSession w"
proof -
  have "sendMessage w =
    w\<lparr>input := [], loading := False,
      messages := sort_key msg_created_at
         (filter (\<lambda>m. msg_session_id m = cs_id cur) (messages_tbl (db w))) @ [u, a],
      db := (db w)\<lparr>
        requests := requests (db w) @
          [InsertMessage (cs_id cur) User (trim (input w)),
           SelectMessages (cs_id cur),
           InsertMessage (cs_id cur) Assistant (generateMedicalResponse (trim (input w))),
           SelectMessages (cs_id cur),
           UpdateSession (cs_id cur) (clock (db w) + 4)],
        faults := tl (tl (tl (tl (tl (faults (db w)))))),
        clock := clock (db w) + 5,
        messages_tbl := messages_tbl (db w) @ [u, a],
        next_id := next_id (db w) + 2,
        chat_sessions_tbl :=
          map (\<lambda>s. if cs_id s = cs_id cur \<and> cs_user_id s = auth_uid (db w)
                    then s\<lparr>cs_updated_at := clock (db w) + 4\<rparr> else s)
            (chat_sessions_tbl (db w))\<rparr>\<rparr>"
  proof (rule sendMessage_all_ok)
    show "\<not> nth_fault (faults (db w)) 0" using assms(4) [rule_format, of 0] by simp
    show "\<not> nth_fault (faults (db w)) 1" using assms(4) [rule_format, of 1] by simp
    show "\<not> nth_fault (faults (db w)) 2" using assms(4) [rule_format, of 2] by simp
    show "\<not> nth_fault (faults (db w)) 3" using assms(4) [rule_format, of 3] by simp
    show "\<not> nth_fault (faults (db w)) 4" using assms(4) [rule_format, of 4] by simp
  qed (use assms in simp_all)
  then show ?thesis by simp
qed

theorem send_success_witness:
  "messages (sendMessage (example_world [])) =
     [\<lparr>msg_id = 3, msg_session_id = 1, msg_role = User, msg_content = ''hello'',
       msg_created_at = 101\<rparr>,
      \<lparr>msg_id = 4, msg_session_id = 1, msg_role = User,
       msg_content = ''I have a Headache'', msg_created_at = 110\<rparr>,
      \<lparr>msg_id = 5, msg_session_id = 1, msg_role = Assistant,
       msg_content = headache_advice, msg_created_at = 112\<rparr>]
   \<and> loading (sendMessage (example_world [])) = False"
proof -
  have h1: "currentSession (example_world []) = Some example_session"
    by (simp add: example_world_def)
  have h2: "\<not> loading (example_world [])"
    by (simp add: example_world_def)
  have h3: "trim (input (example_world [])) \<noteq> []"
    by code_simp
  have h4: "\<forall>n<5. \<not> nth_fault (faults (db (example_world []))) n"
    by (simp add: example_world_def example_store_def next_fault_def
        less_Suc_eq eval_nat_numeral)
  have h5: "owns (db (example_world [])) (cs_id example_session)"
    by (simp add: example_world_def example_store_def example_session_def owns_def)
  have h6: "store_inv (db (example_world []))"
    by (simp add: example_world_def example_store_def example_session_def store_inv_def)
  have t: "trim (input (example_world [])) = ''I have a Headache''"
    by code_simp
  have g: "generateMedicalResponse ''I have a Headache'' = headache_advice"
    by code_simp
  show ?thesis
    using send_success [OF h1 h2 h3 h4 h5 h6 refl refl]
    by (simp add: t g) (simp add: example_world_def example_store_def example_session_def)
qed

text \<open>
  C5. When no session is selected, or an exchange is in flight, or the input is blank
  after trimming, \<open>sendMessage\<close> leaves the whole state as it is: the five state
  variables, the console and the store, which receives no request.
\<close>

theorem send_guard_frame:
  assumes "currentSession w = None \<or> loading w \<or> trim (input w) = []"
  shows "sendMessage w = w"
  using assms by (auto simp: sendMessage_def)

theorem send_guard_frame_witness:
  "sendMessage ((example_world [])\<lparr>currentSession := None\<rparr>)
     = (example_world [])\<lparr>currentSession := None\<rparr>
   \<and> sendMessage ((example_world [])\<lparr>loading := True\<rparr>)
     = (example_world [])\<lparr>loading := True\<rparr>
   \<and> sendMessage ((example_world [])\<lparr>input := [CHR 0x20, CHR 0x09, CHR 0x0A, CHR 0xA0]\<rparr>)
     = (example_world [])\<lparr>input := [CHR 0x20, CHR 0x09, CHR 0x0A, CHR 0xA0]\<rparr>"
proof -
  have b: "trim [CHR 0x20, CHR 0x09, CHR 0x0A, CHR 0xA0] = []"
    by code_simp
  show ?thesis
    using send_guard_frame [of "(example_world [])\<lparr>currentSession := None\<rparr>"]
      send_guard_frame [of "(example_world [])\<lparr>loading := True\<rparr>"]
      send_guard_frame [of "(example_world [])\<lparr>input := [CHR 0x20, CHR 0x09, CHR 0x0A, CHR 0xA0]\<rparr>"]
    by (simp add: b)
qed

text \<open>
  C4. In a send that passes the guard, on a store satisfying \<open>store_inv\<close>, the \<open>user\<close>
  message was stored (its request did not fail and the user owns the session), the store
  rejects the \<open>assistant\<close> message, and the reload after it is answered. Then the messages table has gained the \<open>user\<close> message and nothing else,
  the message list ends with that \<open>user\<close> message, the rejection is on the console, and
  the flow runs to its end: all five requests are made, the last one touching the session
  (and updating it when it is not itself rejected), and the component is idle again.
  \<open>sendMessage\<close> is a function into states: a rejection is a value in a response, and
  there is no exception to reach the caller.
\<close>

theorem send_assistant_insert_rejected:
  assumes cur: "currentSession w = Some cur" and idle: "\<not> loading w"
    and nonblank: "trim (input w) \<noteq> []"
    and f0: "\<not> nth_fault (faults (db w)) 0"
    and own: "owns (db w) (cs_id cur)"
    and f2: "nth_fault (faults (db w)) 2"
    and f3: "\<not> nth_fault (faults (db w)) 3"
    and inv: "store_inv (db w)"
    and u: "u = \<lparr>msg_id = next_id (db w), msg_session_id = cs_id cur, msg_role = User,
                 msg_content = trim (input w), msg_created_at = clock (db w)\<rparr>"
  shows "messages_tbl (db (sendMessage w)) = messages_tbl (db w) @ [u]
    \<and> messages (sendMessage w) =
         sort_key msg_created_at
           (filter (\<lambda>m. msg_session_id m = cs_id cur) (messages_tbl (db w))) @ [u]
    \<and> requests (db (sendMessage w)) = requests (db w) @
         [InsertMessage (cs_id cur) User (trim (input w)),
          SelectMessages (cs_id cur),
          InsertMessage (cs_id cur) Assistant (generateMedicalResponse (trim (input w))),
          SelectMessages (cs_id cur),
          UpdateSession (cs_id cur) (clock (db w) + 4)]
    \<and> (''Error saving assistant message:'', TransportFailure) \<in> set (console (sendMessage w))
    \<and> loading (sendMessage w) = False
    \<and> input (sendMessage w) = []
    \<and> (\<not> nth_fault (faults (db w)) 4 \<longrightarrow>
         chat_sessions_tbl (db (sendMessage w)) =
         map (\<lambda>s. if cs_id s = cs_id cur \<and> cs_user_id s = auth_uid (db w)
                   then s\<lparr>cs_updated_at := clock (db w) + 4\<rparr> else s)
           (chat_sessions_tbl (db w)))"
proof -
  have le1: "list_all (\<lambda>m. msg_created_at m \<le> msg_created_at u) (messages_tbl (db w))"
    using inv by (auto simp: store_inv_def list_all_iff u)
  have s1: "sort_key msg_created_at
      (filter (\<lambda>m. msg_session_id m = cs_id cur) (messages_tbl (db w) @ [u]))
    = sort_key msg_created_at
      (filter (\<lambda>m. msg_session_id m = cs_id cur) (messages_tbl (db w))) @ [u]"
    using le1 by (rule sort_key_filter_snoc) (simp add: u)
  note fs = f0 [simplified] f2 [unfolded nth_fault_unfold] f3 [unfolded nth_fault_unfold]
  note defs = sendMessage_def Let_def insert_message_ok insert_message_fault
    loadMessages_owned loadMessages_fault update_session_ok update_session_fault
    console_error_def
  show ?thesis
  proof (cases "next_fault (tl (faults (db w)))")
    case r1: True
    show ?thesis
    proof (cases "next_fault (tl (tl (tl (tl (faults (db w))))))")
      case True
      with r1 cur idle nonblank fs own s1 show ?thesis
        by (simp add: defs u nth_fault_unfold eval_nat_numeral)
    next
      case False
      with r1 cur idle nonblank fs own s1 show ?thesis
        by (simp add: defs u nth_fault_unfold eval_nat_numeral)
    qed
  next
    case r1: False
    show ?thesis
    proof (cases "next_fault (tl (tl (tl (tl (faults (db w))))))")
      case True
      with r1 cur idle nonblank fs own s1 show ?thesis
        by (simp add: defs u nth_fault_unfold eval_nat_numeral)
    next
      case False
      with r1 cur idle nonblank fs own s1 show ?thesis
        by (simp add: defs u nth_fault_unfold eval_nat_numeral)
    qed
  qed
qed

theorem send_assistant_insert_rejected_witness:
  "messages (sendMessage (example_world [False, False, True])) =
     [\<lparr>msg_id = 3, msg_session_id = 1, msg_role = User, msg_content = ''hello'',
       msg_created_at = 101\<rparr>,
      \<lparr>msg_id = 4, msg_session_id = 1, msg_role = User,
       msg_content = ''I have a Headache'', msg_created_at = 110\<rparr>]
   \<and> messages_tbl (db (sendMessage (example_world [False, False, True]))) =
     messages_tbl (example_store []) @
     [\<lparr>msg_id = 4, msg_session_id = 1, msg_role = User,
       msg_content = ''I have a Headache'', msg_created_at = 110\<rparr>]
   \<and> (''Error saving assistant message:'', TransportFailure)
       \<in> set (console (sendMessage (example_world [False, False, True])))
   \<and> loading (sendMessage (example_world [False, False, True])) = False
   \<and> map cs_updated_at
       (chat_sessions_tbl (db (sendMessage (example_world [False, False, True])))) = [99, 114]"
proof -
  have h1: "currentSession (example_world [False, False, True]) = Some example_session"
    by (simp add: example_world_def)
  have h2: "\<not> loading (example_world [False, False, True])"
    by (simp add: example_world_def)
  have h3: "trim (input (example_world [False, False, True])) \<noteq> []"
    by code_simp
  have h4: "\<not> nth_fault (faults (db (example_world [False, False, True]))) 0"
    by (simp add: example_world_def example_store_def next_fault_def)
  have h5: "owns (db (example_world [False, False, True])) (cs_id example_session)"
    by (simp add: example_world_def example_store_def example_session_def owns_def)
  have h6: "nth_fault (faults (db (example_world [False, False, True]))) 2"
    by (simp add: example_world_def example_store_def next_fault_def eval_nat_numeral)
  have h7: "\<not> nth_fault (faults (db (example_world [False, False, True]))) 3"
    by (simp add: example_world_def example_store_def next_fault_def eval_nat_numeral)
  have h8: "store_inv (db (example_world [False, False, True]))"
    by (simp add: example_world_def example_store_def example_session_def store_inv_def)
  have h9: "\<not> nth_fault (faults (db (example_world [False, False, True]))) 4"
    by (simp add: example_world_def example_store_def next_fault_def eval_nat_numeral)
  have t: "trim (input (example_world [False, False, True])) = ''I have a Headache''"
    by code_simp
  show ?thesis
    using send_assistant_insert_rejected [OF h1 h2 h3 h4 h5 h6 h7 h8 refl] h9
    by (simp add: t) (simp add: example_world_def example_store_def example_session_def)
qed

text \<open>
  C8. The session touch at the end of \<open>sendMessage\<close> fails while the four requests before
  it succeed: the flow still ends idle, the session keeps its \<open>updated_at\<close>, and the
  console stays empty. The response of the touch is never looked at, so its failure is
  not logged.
\<close>

theorem touch_failure_not_logged:
  "console (sendMessage (example_world [False, False, False, False, True])) = []
   \<and> loading (sendMessage (example_world [False, False, False, False, True])) = False
   \<and> chat_sessions_tbl (db (sendMessage (example_world [False, False, False, False, True])))
       = chat_sessions_tbl (example_store [])
   \<and> requests (db (sendMessage (example_world [False, False, False, False, True]))) =
       [InsertMessage 1 User ''I have a Headache'', SelectMessages 1,
        InsertMessage 1 Assistant headache_advice, SelectMessages 1, UpdateSession 1 114]"
  by code_simp

text \<open>
  C9. When the insert of the \<open>user\<close> message answers with an error, that insert is the
  only request \<open>sendMessage\<close> makes: no reload, no \<open>assistant\<close> insert, no touch. The
  error is logged, the component is idle again with its input cleared, and the message
  list, the session list, the selection and both tables are as before.
\<close>

theorem send_user_insert_fails:
  assumes "currentSession w = Some cur" and "\<not> loading w" and "trim (input w) \<noteq> []"
    and "error (fst (insert_message (cs_id cur) User (trim (input w)) (db w))) = Some e"
  shows "sendMessage w =
    w\<lparr>input := [], loading := False,
      console := console w @ [(''Error saving user message:'', e)],
      db := (db w)\<lparr>requests := requests (db w) @ [InsertMessage (cs_id cur) User (trim (input w))],
         faults := tl (faults (db w)), clock := Suc (clock (db w))\<rparr>\<rparr>"
  using assms(1-3) insert_message_error [OF assms(4)]
  by (simp add: sendMessage_def Let_def console_error_def)

theorem send_user_insert_fails_witness:
  "requests (db (sendMessage (example_world [True]))) = [InsertMessage 1 User ''I have a Headache'']
   \<and> messages_tbl (db (sendMessage (example_world [True]))) = messages_tbl (example_store [True])
   \<and> chat_sessions_tbl (db (sendMessage (example_world [True])))
       = chat_sessions_tbl (example_store [True])
   \<and> messages (sendMessage (example_world [True])) = messages (example_world [True])
   \<and> sessions (sendMessage (example_world [True])) = sessions (example_world [True])
   \<and> currentSession (sendMessage (example_world [True])) = currentSession (example_world [True])
   \<and> input (sendMessage (example_world [True])) = []
   \<and> loading (sendMessage (example_world [True])) = False
   \<and> console (sendMessage (example_world [True]))
       = [(''Error saving user message:'', TransportFailure)]"
proof -
  have h1: "currentSession (example_world [True]) = Some example_session"
    by (simp add: example_world_def)
  have h2: "\<not> loading (example_world [True])"
    by (simp add: example_world_def)
  have h3: "trim (input (example_world [True])) \<noteq> []"
    by code_simp
  have h4: "error (fst (insert_message (cs_id example_session) User
      (trim (input (example_world [True]))) (db (example_world [True])))) = Some TransportFailure"
    by code_simp
  have t: "trim (input (example_world [True])) = ''I have a Headache''"
    by code_simp
  show ?thesis
    using send_user_insert_fails [OF h1 h2 h3 h4]
    by (simp add: t) (simp add: example_world_def example_store_def example_session_def)
qed

section \<open>Claims about loading and creating\<close>

text \<open>
  C10. When its store call answers with an error, each of \<open>loadSessions\<close>,
  \<open>loadMessages\<close> and \<open>createNewSession\<close> logs the error and leaves the five state
  variables (session list, selection, message list, input, loading flag) as they were.
\<close>

theorem load_create_errors_keep_view:
  "(error (fst (select_sessions (db w))) = Some e \<longrightarrow>
      view_of (loadSessions w) = view_of w
      \<and> console (loadSessions w) = console w @ [(''Error loading sessions:'', e)])
   \<and> (error (fst (select_messages sessionId (db w))) = Some e \<longrightarrow>
      view_of (loadMessages sessionId w) = view_of w
      \<and> console (loadMessages sessionId w) = console w @ [(''Error loading messages:'', e)])
   \<and> (error (fst (insert_session user ''New Chat'' (db w))) = Some e \<longrightarrow>
      view_of (createNewSession user w) = view_of w
      \<and> console (createNewSession user w) = console w @ [(''Error creating session:'', e)])"
proof (intro conjI impI)
  assume h: "error (fst (select_sessions (db w))) = Some e"
  show "view_of (loadSessions w) = view_of w"
    using select_sessions_error [OF h]
    by (simp add: loadSessions_def view_of_def console_error_def)
  show "console (loadSessions w) = console w @ [(''Error loading sessions:'', e)]"
    using select_sessions_error [OF h]
    by (simp add: loadSessions_def console_error_def)
next
  assume h: "error (fst (select_messages sessionId (db w))) = Some e"
  show "view_of (loadMessages sessionId w) = view_of w"
    using select_messages_error [OF h]
    by (simp add: loadMessages_def view_of_def console_error_def)
  show "console (loadMessages sessionId w) = console w @ [(''Error loading messages:'', e)]"
    using select_messages_error [OF h]
    by (simp add: loadMessages_def console_error_def)
next
  assume h: "error (fst (insert_session user ''New Chat'' (db w))) = Some e"
  show "view_of (createNewSession user w) = view_of w"
    using insert_session_error [OF h]
    by (simp add: createNewSession_def view_of_def console_error_def)
  show "console (createNewSession user w) = console w @ [(''Error creating session:'', e)]"
    using insert_session_error [OF h]
    by (simp add: createNewSession_def console_error_def)
qed

theorem load_create_errors_keep_view_witness:
  "error (fst (select_sessions (db (example_world [True])))) = Some TransportFailure
   \<and> view_of (loadSessions (example_world [True])) = view_of (example_world [True])
   \<and> error (fst (select_messages 1 (db (example_world [True])))) = Some TransportFailure
   \<and> view_of (loadMessages 1 (example_world [True])) = view_of (example_world [True])
   \<and> error (fst (insert_session 7 ''New Chat'' (db (example_world [True]))))
       = Some TransportFailure
   \<and> view_of (createNewSession 7 (example_world [True])) = view_of (example_world [True])"
proof -
  have h1: "error (fst (select_sessions (db (example_world [True])))) = Some TransportFailure"
    by code_simp
  have h2: "error (fst (select_messages 1 (db (example_world [True])))) = Some TransportFailure"
    by code_simp
  have h3: "error (fst (insert_session 7 ''New Chat'' (db (example_world [True]))))
       = Some TransportFailure"
    by code_simp
  show ?thesis
    using h1 h2 h3
      load_create_errors_keep_view [of "example_world [True]" TransportFailure 1 7]
    by simp
qed

section \<open>Claims about the store's lists\<close>

text \<open>
  C6. A \<open>listSessions\<close> request that is not lost in transport answers without error with
  the sessions of the requesting user, all of them and no others, newest \<open>updated_at\<close>
  first; the answer is the empty list, still without error, when the user owns no
  session; \<open>loadSessions\<close> shows that list and logs nothing. And when a user who owns
  no session creates A, then B, then touches A with the time of that moment, and then
  lists, each step succeeding, the list is A (with its new \<open>updated_at\<close>) and then B.
\<close>

theorem list_sessions_newest_first:
  "(\<not> nth_fault (faults (db w)) 0 \<longrightarrow>
      (\<exists>rows. fst (select_sessions (db w)) = \<lparr>data = Some rows, error = None\<rparr>
         \<and> set rows = {s \<in> set (chat_sessions_tbl (db w)). cs_user_id s = auth_uid (db w)}
         \<and> length rows = length (filter (\<lambda>s. cs_user_id s = auth_uid (db w))
                                    (chat_sessions_tbl (db w)))
         \<and> sorted_wrt (\<lambda>a b. cs_updated_at b \<le> cs_updated_at a) rows
         \<and> ((\<forall>s \<in> set (chat_sessions_tbl (db w)). cs_user_id s \<noteq> auth_uid (db w))
              \<longrightarrow> rows = [])
         \<and> sessions (loadSessions w) = rows
         \<and> console (loadSessions w) = console w))
   \<and> ((\<forall>s \<in> set (chat_sessions_tbl st). cs_user_id s \<noteq> auth_uid st)
       \<and> insert_session (auth_uid st) ''New Chat'' st = (rA, st1) \<and> data rA = Some A
       \<and> insert_session (auth_uid st) ''New Chat'' st1 = (rB, st2) \<and> data rB = Some B
       \<and> update_session (cs_id A) (clock st2) st2 = (rT, st3) \<and> error rT = None
       \<and> select_sessions st3 = (rL, st4) \<and> error rL = None
       \<longrightarrow> data rL = Some [A\<lparr>cs_updated_at := clock st2\<rparr>, B]
           \<and> cs_updated_at B < clock st2)"
proof (intro conjI impI)
  assume "\<not> nth_fault (faults (db w)) 0"
  then have ok: "\<not> next_fault (faults (db w))" by simp
  let ?rows = "rev (sort_key cs_updated_at
      (filter (\<lambda>s. cs_user_id s = auth_uid (db w)) (chat_sessions_tbl (db w))))"
  have "fst (select_sessions (db w)) = \<lparr>data = Some ?rows, error = None\<rparr>"
    using ok by (simp add: select_sessions_ok)
  moreover have "set ?rows = {s \<in> set (chat_sessions_tbl (db w)). cs_user_id s = auth_uid (db w)}"
    by auto
  moreover have "length ?rows = length (filter (\<lambda>s. cs_user_id s = auth_uid (db w))
                                    (chat_sessions_tbl (db w)))"
    by simp
  moreover have "sorted_wrt (\<lambda>a b. cs_updated_at b \<le> cs_updated_at a) ?rows"
    by (rule sorted_wrt_rev_sort_key)
  moreover have "(\<forall>s \<in> set (chat_sessions_tbl (db w)). cs_user_id s \<noteq> auth_uid (db w))
              \<longrightarrow> ?rows = []"
    by (auto simp: filter_empty_conv)
  moreover have "sessions (loadSessions w) = ?rows"
    using ok by (simp add: loadSessions_def select_sessions_ok Let_def split: list.splits)
  moreover have "console (loadSessions w) = console w"
    using ok by (simp add: loadSessions_def select_sessions_ok Let_def split: list.splits)
  ultimately show "\<exists>rows. fst (select_sessions (db w)) = \<lparr>data = Some rows, error = None\<rparr>
         \<and> set rows = {s \<in> set (chat_sessions_tbl (db w)). cs_user_id s = auth_uid (db w)}
         \<and> length rows = length (filter (\<lambda>s. cs_user_id s = auth_uid (db w))
                                    (chat_sessions_tbl (db w)))
         \<and> sorted_wrt (\<lambda>a b. cs_updated_at b \<le> cs_updated_at a) rows
         \<and> ((\<forall>s \<in> set (chat_sessions_tbl (db w)). cs_user_id s \<noteq> auth_uid (db w))
              \<longrightarrow> rows = [])
         \<and> sessions (loadSessions w) = rows
         \<and> console (loadSessions w) = console w"
    by blast
next
  assume h: "(\<forall>s \<in> set (chat_sessions_tbl st). cs_user_id s \<noteq> auth_uid st)
       \<and> insert_session (auth_uid st) ''New Chat'' st = (rA, st1) \<and> data rA = Some A
       \<and> insert_session (auth_uid st) ''New Chat'' st1 = (rB, st2) \<and> data rB = Some B
       \<and> update_session (cs_id A) (clock st2) st2 = (rT, st3) \<and> error rT = None
       \<and> select_sessions st3 = (rL, st4) \<and> error rL = None"
  then have r: "data rL = Some [A\<lparr>cs_updated_at := clock st2\<rparr>, B]
    \<and> cs_updated_at B < clock st2"
    by (intro create_create_touch_list [of st rA st1 A rB st2 B rT st3 rL st4]) simp_all
  from r show "data rL = Some [A\<lparr>cs_updated_at := clock st2\<rparr>, B]" by simp
  from r show "cs_updated_at B < clock st2" by simp
qed

theorem list_sessions_newest_first_witness:
  "fst (select_sessions (db (example_world []))) = \<lparr>data = Some [example_session], error = None\<rparr>
   \<and> sessions (loadSessions (example_world [])) = [example_session]
   \<and> data (fst (select_sessions (snd (update_session 4 112
        (snd (insert_session 9 ''New Chat''
          (snd (insert_session 9 ''New Chat'' example_guest_store)))))))) =
      Some [\<lparr>cs_id = 4, cs_user_id = 9, cs_title = ''New Chat'', cs_created_at = 110,
              cs_updated_at = 112\<rparr>,
            \<lparr>cs_id = 5, cs_user_id = 9, cs_title = ''New Chat'', cs_created_at = 111,
              cs_updated_at = 111\<rparr>]"
proof -
  let ?A = "\<lparr>cs_id = 4, cs_user_id = 9, cs_title = ''New Chat'', cs_created_at = 110,
              cs_updated_at = 110\<rparr>"
  let ?B = "\<lparr>cs_id = 5, cs_user_id = 9, cs_title = ''New Chat'', cs_created_at = 111,
              cs_updated_at = 111\<rparr>"
  let ?a = "insert_session 9 ''New Chat'' example_guest_store"
  let ?b = "insert_session 9 ''New Chat'' (snd ?a)"
  let ?t = "update_session 4 112 (snd ?b)"
  let ?l = "select_sessions (snd ?t)"
  have h0: "\<not> nth_fault (faults (db (example_world []))) 0"
    by (simp add: example_world_def example_store_def next_fault_def)
  have g0: "\<forall>s \<in> set (chat_sessions_tbl example_guest_store).
      cs_user_id s \<noteq> auth_uid example_guest_store"
    by (simp add: example_guest_store_def example_store_def example_session_def)
  have u: "auth_uid example_guest_store = 9"
    by (simp add: example_guest_store_def example_store_def)
  have g1: "data (fst ?a) = Some ?A" by code_simp
  have g2: "data (fst ?b) = Some ?B" by code_simp
  have c2: "clock (snd ?b) = 112" by code_simp
  have g3: "error (fst ?t) = None" by code_simp
  have g4: "error (fst ?l) = None" by code_simp
  have e1: "fst (select_sessions (db (example_world []))) =
      \<lparr>data = Some [example_session], error = None\<rparr>"
    by code_simp
  have e2: "sessions (loadSessions (example_world [])) = [example_session]"
    by code_simp
  note inst = list_sessions_newest_first [of "example_world []" example_guest_store
      "fst ?a" "snd ?a" ?A "fst ?b" "snd ?b" ?B "fst ?t" "snd ?t" "fst ?l" "snd ?l"]
  show ?thesis
    using inst h0 g0 g1 g2 g3 g4
    by (simp add: u c2 e1 e2)
qed

text \<open>
  C7. Two \<open>listMessages\<close> requests for one session, one after the other with no write
  between them and neither lost in transport, get the same response: the readable
  messages of that session, all of them and no others, ascending by \<open>created_at\<close>, and
  the empty list when the session has no message. \<open>loadMessages\<close> run once or twice
  shows that same list.
\<close>

theorem list_messages_idempotent:
  assumes "\<not> nth_fault (faults (db w)) 0" and "\<not> nth_fault (faults (db w)) 1"
  shows "fst (select_messages sessionId (snd (select_messages sessionId (db w))))
       = fst (select_messages sessionId (db w))
    \<and> (\<exists>rows. fst (select_messages sessionId (db w)) = \<lparr>data = Some rows, error = None\<rparr>
         \<and> sorted (map msg_created_at rows)
         \<and> set rows = {m \<in> set (messages_tbl (db w)).
              msg_session_id m = sessionId \<and> owns (db w) sessionId}
         \<and> length rows = length (filter (\<lambda>m. msg_session_id m = sessionId
              \<and> owns (db w) sessionId) (messages_tbl (db w)))
         \<and> ((\<forall>m \<in> set (messages_tbl (db w)). msg_session_id m \<noteq> sessionId)
              \<longrightarrow> rows = [])
         \<and> messages (loadMessages sessionId w) = rows
         \<and> messages (loadMessages sessionId (loadMessages sessionId w)) = rows)"
proof -
  have ok0: "\<not> next_fault (faults (db w))" using assms(1) by simp
  have ok1: "\<not> next_fault (tl (faults (db w)))" using assms(2) by simp
  let ?P = "\<lambda>m. msg_session_id m = sessionId \<and> owns (db w) (msg_session_id m)"
  let ?rows = "sort_key msg_created_at (filter ?P (messages_tbl (db w)))"
  have first: "fst (select_messages sessionId (db w)) = \<lparr>data = Some ?rows, error = None\<rparr>"
    using ok0 by (simp add: select_messages_ok)
  have again: "fst (select_messages sessionId (snd (select_messages sessionId (db w))))
       = fst (select_messages sessionId (db w))"
    using ok1 first by (simp add: select_messages_again)
  have srt: "sorted (map msg_created_at ?rows)" by (rule sorted_sort_key)
  have st: "set ?rows = {m \<in> set (messages_tbl (db w)).
              msg_session_id m = sessionId \<and> owns (db w) sessionId}"
    by auto
  have Q: "filter ?P (messages_tbl (db w)) = filter (\<lambda>m. msg_session_id m = sessionId
              \<and> owns (db w) sessionId) (messages_tbl (db w))"
    by (intro filter_cong) auto
  have len: "length ?rows = length (filter (\<lambda>m. msg_session_id m = sessionId
              \<and> owns (db w) sessionId) (messages_tbl (db w)))"
    using Q by simp
  have none: "(\<forall>m \<in> set (messages_tbl (db w)). msg_session_id m \<noteq> sessionId)
              \<longrightarrow> ?rows = []"
    by (auto simp: filter_empty_conv)
  have l1: "loadMessages sessionId w =
     w\<lparr>db := (db w)\<lparr>requests := requests (db w) @ [SelectMessages sessionId],
         faults := tl (faults (db w)), clock := Suc (clock (db w))\<rparr>,
      messages := ?rows\<rparr>"
    using ok0 by (rule loadMessages_ok)
  have m1: "messages (loadMessages sessionId w) = ?rows"
    by (simp add: l1)
  have m2: "messages (loadMessages sessionId (loadMessages sessionId w)) = ?rows"
    using ok1 by (simp add: l1 loadMessages_ok)
  from first again srt st len none m1 m2 show ?thesis by blast
qed

theorem list_messages_idempotent_witness:
  "fst (select_messages 1 (snd (select_messages 1 (db (example_world [])))))
     = fst (select_messages 1 (db (example_world [])))
   \<and> messages (loadMessages 1 (loadMessages 1 (example_world []))) =
       [\<lparr>msg_id = 3, msg_session_id = 1, msg_role = User, msg_content = ''hello'',
         msg_created_at = 101\<rparr>]
   \<and> messages (loadMessages 1 (example_world [])) =
       [\<lparr>msg_id = 3, msg_session_id = 1, msg_role = User, msg_content = ''hello'',
         msg_created_at = 101\<rparr>]
   \<and> messages (loadMessages 5 (example_world [])) = []"
proof -
  have h0: "\<not> nth_fault (faults (db (example_world []))) 0"
    by (simp add: example_world_def example_store_def next_fault_def)
  have h1: "\<not> nth_fault (faults (db (example_world []))) 1"
    by (simp add: example_world_def example_store_def next_fault_def)
  have e: "fst (select_messages 1 (db (example_world []))) =
      \<lparr>data = Some [\<lparr>msg_id = 3, msg_session_id = 1, msg_role = User, msg_content = ''hello'',
         msg_created_at = 101\<rparr>], error = None\<rparr>"
    by code_simp
  have e5: "messages (loadMessages 5 (example_world [])) = []"
    by code_simp
  from list_messages_idempotent [OF h0 h1, of 1]
  obtain rows where again:
      "fst (select_messages 1 (snd (select_messages 1 (db (example_world [])))))
         = fst (select_messages 1 (db (example_world [])))"
    and r: "fst (select_messages 1 (db (example_world []))) = \<lparr>data = Some rows, error = None\<rparr>"
    and m1: "messages (loadMessages 1 (example_world [])) = rows"
    and m2: "messages (loadMessages 1 (loadMessages 1 (example_world []))) = rows"
    by blast
  from r e have "rows = [\<lparr>msg_id = 3, msg_session_id = 1, msg_role = User,
      msg_content = ''hello'', msg_created_at = 101\<rparr>]"
    by simp
  with again m1 m2 e5 show ?thesis by simp
qed

end
